theory Spec2Isabelle
  imports Complex_Main "HOL-Library.Multiset"
begin

section \<open>The movie recommender of \<^verbatim>\<open>app.py\<close>\<close>

text \<open>
  The program is one Python script. Its logic is the function \<^verbatim>\<open>recommend\<close> (a stable
  descending sort of one row of a precomputed similarity matrix, a slice, and one poster
  and one trailer lookup per selected row), the bounded view history kept by
  \<^verbatim>\<open>update_history\<close>, and the image fallback \<^verbatim>\<open>safe_image\<close>.

  Python exceptions are values of a sum type: \<open>Inl\<close> carries the exception, \<open>Inr\<close>
  the returned value. The only exception the modelled code lets escape is the
  \<^verbatim>\<open>IndexError\<close> of an out-of-range subscript.
\<close>

subsection \<open>Data\<close>

datatype error = IndexError

text \<open>
  A row of the data frame \<^verbatim>\<open>movies\<close>: its index label, and the columns \<^verbatim>\<open>movie_id\<close>
  and \<^verbatim>\<open>title\<close> that the code reads. The frame is the list of its rows in order. A
  frame built without further ado has the labels 0, 1, 2, ...; one that was filtered or
  reordered and not re-indexed keeps the labels its rows had before. The code reads a
  label with \<^verbatim>\<open>.index\<close> and a row by position with \<^verbatim>\<open>.iloc\<close>.
\<close>

record movie =
  label :: int
  movie_id :: int
  title :: string

text \<open>
  The similarity matrix is a list of rows of scores. Scores are compared only through
  the sort key, so any linear order stands for them; this leaves out the
  not-a-number value of floating point, which compares false with everything.
\<close>

type_synonym 'a matrix = "'a list list"

text \<open>One dictionary of the list \<^verbatim>\<open>recommend\<close> returns.\<close>

record recommendation =
  rec_title :: string
  poster :: "string option"
  trailer :: "string option"

subsection \<open>The metadata service\<close>

text \<open>
  What \<^verbatim>\<open>requests_retry_session().get(url)\<close> gives back: an exception (a failed
  connection, or the retries used up), or a response with a status code whose body
  either parses (\<open>Some\<close>) or makes \<^verbatim>\<open>response.json()\<close> raise (\<open>None\<close>).
\<close>

datatype 'b outcome = Raised | Response int "'b option"

text \<open>
  The fields the code reads of the two JSON bodies. \<^verbatim>\<open>type\<close>, \<^verbatim>\<open>site\<close> and
  \<^verbatim>\<open>poster_path\<close> are read with \<^verbatim>\<open>dict.get\<close>, which returns \<^verbatim>\<open>None\<close> for a field that is
  absent or null. \<^verbatim>\<open>key\<close> is read with a subscript: an absent key (\<open>None\<close>) raises, a
  null one (\<open>Some None\<close>) is the value \<^verbatim>\<open>None\<close>, which the f-string prints as
  \<^verbatim>\<open>None\<close>.
\<close>

record video =
  vtype :: "string option"
  site :: "string option"
  key :: "string option option"

text \<open>
  The service as seen by one run: the outcome of the \<open>n\<close>-th request of the run, for
  the movie-details URL and for the videos URL of a movie identifier. Nothing is
  assumed about it; two requests for the same identifier may differ.
\<close>

record tmdb =
  details :: "nat \<Rightarrow> int \<Rightarrow> string option outcome"
  videos :: "nat \<Rightarrow> int \<Rightarrow> video list outcome"

text \<open>
  \<^verbatim>\<open>fetch_poster\<close>: status 200 and a truthy \<^verbatim>\<open>poster_path\<close> give the image URL;
  everything else, exceptions included (the bare \<^verbatim>\<open>except\<close>), gives \<^verbatim>\<open>None\<close>.
\<close>

definition fetch_poster :: "tmdb \<Rightarrow> nat \<Rightarrow> int \<Rightarrow> string option" where
  "fetch_poster net n mid =
     (case details net n mid of
        Raised \<Rightarrow> None
      | Response status_code body \<Rightarrow>
          if status_code = 200 then
            (case body of
               None \<Rightarrow> None
             | Some poster_path \<Rightarrow>
                 (case poster_path of
                    None \<Rightarrow> None
                  | Some p \<Rightarrow> if p \<noteq> [] then Some (''https://image.tmdb.org/t/p/w500'' @ p) else None))
          else None)"

text \<open>
  The loop of \<^verbatim>\<open>fetch_trailer\<close> over \<^verbatim>\<open>results\<close>: the first video of type
  \<^verbatim>\<open>Trailer\<close> on \<^verbatim>\<open>YouTube\<close> decides. If it has no \<^verbatim>\<open>key\<close> the subscript raises and the
  bare \<^verbatim>\<open>except\<close> turns that into \<^verbatim>\<open>None\<close>; a null key gives the URL ending in
  \<^verbatim>\<open>None\<close>.
\<close>

fun first_trailer :: "video list \<Rightarrow> string option" where
  "first_trailer [] = None"
| "first_trailer (v # vs) =
     (if vtype v = Some ''Trailer'' \<and> site v = Some ''YouTube'' then
        (case key v of
           None \<Rightarrow> None
         | Some None \<Rightarrow> Some (''https://youtu.be/'' @ ''None'')
         | Some (Some k) \<Rightarrow> Some (''https://youtu.be/'' @ k))
      else first_trailer vs)"

definition fetch_trailer :: "tmdb \<Rightarrow> nat \<Rightarrow> int \<Rightarrow> string option" where
  "fetch_trailer net n mid =
     (case videos net n mid of
        Raised \<Rightarrow> None
      | Response status_code body \<Rightarrow>
          if status_code = 200 then
            (case body of None \<Rightarrow> None | Some results \<Rightarrow> first_trailer results)
          else None)"

subsection \<open>Safe image loader\<close>

text \<open>
  \<^verbatim>\<open>return url if url else "https://i.ibb.co/ZVFsg37/no-image-icon.png"\<close>: the argument is
  a string or \<^verbatim>\<open>None\<close>, and both \<^verbatim>\<open>None\<close> and the empty string are falsy.
\<close>

definition no_image_icon :: string where
  "no_image_icon = ''https://i.ibb.co/ZVFsg37/no-image-icon.png''"

definition safe_image :: "string option \<Rightarrow> string" where
  "safe_image url =
     (case url of
        None \<Rightarrow> no_image_icon
      | Some u \<Rightarrow> if u \<noteq> [] then u else no_image_icon)"

subsection \<open>Recommendation\<close>

text \<open>
  The subscript \<^verbatim>\<open>similarity[index]\<close> with an integer: a negative index counts from the
  end, and an index out of range raises.
\<close>

definition getitem :: "'a list \<Rightarrow> int \<Rightarrow> error + 'a" where
  "getitem xs i =
     (if 0 \<le> i \<and> i < int (length xs) then Inr (xs ! nat i)
      else if i < 0 \<and> - int (length xs) \<le> i then Inr (xs ! nat (int (length xs) + i))
      else Inl IndexError)"

text \<open>\<^verbatim>\<open>movies.iloc[k]\<close> with a position from \<^verbatim>\<open>enumerate\<close>: out of range raises.\<close>

definition iloc :: "'a list \<Rightarrow> nat \<Rightarrow> error + 'a" where
  "iloc xs k = (if k < length xs then Inr (xs ! k) else Inl IndexError)"

text \<open>
  \<^verbatim>\<open>movies[movies["title"] == movie].index[0]\<close>: the rows whose title equals the query,
  in frame order, and the index label of the first of them; none raises.
\<close>

definition title_index :: "movie list \<Rightarrow> string \<Rightarrow> error + int" where
  "title_index movies q =
     (case filter (\<lambda>m. title m = q) movies of
        [] \<Rightarrow> Inl IndexError
      | m # _ \<Rightarrow> Inr (label m))"

text \<open>
  \<^verbatim>\<open>sorted(xs, reverse=True, key=k)\<close>. Python's sort is stable, and with
  \<^verbatim>\<open>reverse=True\<close> it reverses the list, sorts it ascending and stably, and reverses
  the result, so that equal keys keep their original order. \<^const>\<open>sort_key\<close> is a
  stable ascending sort.
\<close>

definition sorted_reverse :: "('a \<Rightarrow> 'k::linorder) \<Rightarrow> 'a list \<Rightarrow> 'a list" where
  "sorted_reverse k xs = rev (sort_key k (rev xs))"

text \<open>Line 142: \<^verbatim>\<open>sorted(list(enumerate(row)), reverse=True, key=lambda x: x[1])\<close>.\<close>

definition distances :: "'a::linorder list \<Rightarrow> (nat \<times> 'a) list" where
  "distances row = sorted_reverse snd (enumerate 0 row)"

text \<open>
  The loop over \<^verbatim>\<open>distances[1:6]\<close>. Each round reads the row \<^verbatim>\<open>movies.iloc[i[0]]\<close>
  by position (out of range raises), asks for the poster and then for the trailer, and appends
  the dictionary. \<open>n\<close> counts the requests made so far.
\<close>

fun rec_loop :: "tmdb \<Rightarrow> movie list \<Rightarrow> nat \<Rightarrow> (nat \<times> 'a) list \<Rightarrow> error + recommendation list" where
  "rec_loop net movies n [] = Inr []"
| "rec_loop net movies n (i # rest) =
     (case iloc movies (fst i) of
        Inl e \<Rightarrow> Inl e
      | Inr m \<Rightarrow>
          (let rec_movie_id = movie_id m;
               p = fetch_poster net n rec_movie_id;
               t = fetch_trailer net (n + 1) rec_movie_id
           in case rec_loop net movies (n + 2) rest of
                Inl e \<Rightarrow> Inl e
              | Inr recommendations \<Rightarrow>
                  Inr (\<lparr>rec_title = title m, poster = p, trailer = t\<rparr> # recommendations)))"

text \<open>
  Lines 141 to 155. The label found in line 141 is the subscript of the matrix in line
  142; the candidates of the sorted row are positions, read with \<^verbatim>\<open>.iloc\<close>.
\<close>

definition recommend ::
  "tmdb \<Rightarrow> movie list \<Rightarrow> 'a::linorder matrix \<Rightarrow> string \<Rightarrow> error + recommendation list" where
  "recommend net movies similarity q =
     (case title_index movies q of
        Inl e \<Rightarrow> Inl e
      | Inr index \<Rightarrow>
          (case getitem similarity index of
             Inl e \<Rightarrow> Inl e
           | Inr row \<Rightarrow> rec_loop net movies 0 (take 5 (drop 1 (distances row)))))"

subsection \<open>View history\<close>

text \<open>
  \<^verbatim>\<open>update_history\<close> on \<^verbatim>\<open>st.session_state.history\<close>, which starts as the empty list:
  append unless the last entry is the same identifier, then drop the entry at position
  0 if the list has grown beyond five.
\<close>

definition update_history :: "int list \<Rightarrow> int \<Rightarrow> int list" where
  "update_history history mid =
     (if history = [] \<or> last history \<noteq> mid then
        (let h = history @ [mid] in if length h > 5 then tl h else h)
      else history)"

subsection \<open>Auxiliary notions for the statements\<close>

text \<open>
  The data model's invariant: the matrix is square and its dimension is the size of
  the catalog.
\<close>

definition aligned :: "movie list \<Rightarrow> 'a matrix \<Rightarrow> bool" where
  "aligned movies similarity \<longleftrightarrow>
     length similarity = length movies \<and> list_all (\<lambda>row. length row = length movies) similarity"

text \<open>A service that fails on every request, and one that always answers.\<close>

definition offline :: tmdb where
  "offline = \<lparr>details = (\<lambda>n mid. Raised), videos = (\<lambda>n mid. Raised)\<rparr>"

definition online :: tmdb where
  "online =
     \<lparr>details = (\<lambda>n mid. Response 200 (Some (Some ''/poster.jpg''))),
      videos = (\<lambda>n mid. Response 200
                  (Some [\<lparr>vtype = Some ''Trailer'', site = Some ''YouTube'', key = Some (Some ''abc'')\<rparr>]))\<rparr>"

text \<open>
  The two conditions on the query's row under which the query itself is ranked first:
  its own score is maximal in the row, and it is strictly above the score of every
  earlier row (among equal scores the stable sort puts the earlier row first).
\<close>

definition self_maximal :: "'a::linorder list \<Rightarrow> nat \<Rightarrow> bool" where
  "self_maximal row i \<longleftrightarrow> list_all (\<lambda>j. row ! j \<le> row ! i) [0..<length row]"

definition above_earlier :: "'a::linorder list \<Rightarrow> nat \<Rightarrow> bool" where
  "above_earlier row i \<longleftrightarrow> list_all (\<lambda>j. row ! j < row ! i) [0..<i]"

text \<open>
  Row \<open>p\<close> is the first row of the frame with the query title; row \<open>p\<close> is the only
  one.
\<close>

definition first_match :: "movie list \<Rightarrow> string \<Rightarrow> nat \<Rightarrow> bool" where
  "first_match movies q p \<longleftrightarrow>
     p < length movies \<and> title (movies ! p) = q \<and> list_all (\<lambda>j. title (movies ! j) \<noteq> q) [0..<p]"

definition only_match :: "movie list \<Rightarrow> string \<Rightarrow> nat \<Rightarrow> bool" where
  "only_match movies q p \<longleftrightarrow>
     p < length movies \<and> title (movies ! p) = q
     \<and> list_all (\<lambda>j. title (movies ! j) = q \<longrightarrow> j = p) [0..<length movies]"

text \<open>
  Concrete instances: a catalog of three movies with the default index and a symmetric
  matrix for it; and the same three movies in a frame that has lost the row labelled
  1 and was not re-indexed, with a symmetric matrix of dimension three.
\<close>

definition abc_movies :: "movie list" where
  "abc_movies =
     [\<lparr>label = 0, movie_id = 1, title = ''A''\<rparr>, \<lparr>label = 1, movie_id = 2, title = ''B''\<rparr>,
      \<lparr>label = 2, movie_id = 3, title = ''C''\<rparr>]"

definition abc_similarity :: "real matrix" where
  "abc_similarity = [[1, 9/10, 9/10], [9/10, 1, 1/2], [9/10, 1/2, 1]]"

definition gap_movies :: "movie list" where
  "gap_movies =
     [\<lparr>label = 0, movie_id = 1, title = ''A''\<rparr>, \<lparr>label = 2, movie_id = 2, title = ''B''\<rparr>,
      \<lparr>label = 3, movie_id = 3, title = ''C''\<rparr>]"

definition gap_similarity :: "real matrix" where
  "gap_similarity = [[1, 9/10, 1/2], [9/10, 1, 1/5], [1/2, 1/5, 1]]"

section \<open>Safe image loader\<close>

text \<open>
  C10. \<^verbatim>\<open>safe_image\<close> returns a non-empty URL string unchanged, and returns the fixed
  placeholder URL when the argument is \<^verbatim>\<open>None\<close> or the empty string. The two cases
  cover every argument, so the fallback is taken exactly for a missing or empty URL:
  the result is the placeholder only for \<^verbatim>\<open>None\<close>, for the empty string, and for the
  placeholder URL itself, which is a non-empty string returned unchanged. The result
  is never an empty image source.
\<close>

theorem safe_image_spec:
  "(\<forall>u. u \<noteq> [] \<longrightarrow> safe_image (Some u) = u)
   \<and> safe_image None = ''https://i.ibb.co/ZVFsg37/no-image-icon.png''
   \<and> safe_image (Some []) = ''https://i.ibb.co/ZVFsg37/no-image-icon.png''
   \<and> (safe_image url = ''https://i.ibb.co/ZVFsg37/no-image-icon.png'' \<longleftrightarrow>
        url = None \<or> url = Some [] \<or> url = Some ''https://i.ibb.co/ZVFsg37/no-image-icon.png'')
   \<and> (url = None \<or> url = Some [] \<or> url = Some (safe_image url))
   \<and> safe_image url \<noteq> []"
  by (cases url) (auto simp add: safe_image_def no_image_icon_def)

theorem safe_image_spec_witness:
  "''poster.jpg'' \<noteq> [] \<and> safe_image (Some ''poster.jpg'') = ''poster.jpg''"
  using safe_image_spec [of "Some ''poster.jpg''"] by simp

section \<open>View history\<close>

lemma update_history_same: "history \<noteq> [] \<Longrightarrow> last history = mid \<Longrightarrow> update_history history mid = history"
  by (simp add: update_history_def)

lemma update_history_other: "history = [] \<or> last history \<noteq> mid \<Longrightarrow>
  update_history history mid = (if length history < 5 then history @ [mid] else tl (history @ [mid]))"
  by (auto simp add: update_history_def Let_def)

lemma update_history_last: "update_history history mid \<noteq> [] \<and> last (update_history history mid) = mid"
proof (cases "history = [] \<or> last history \<noteq> mid")
  case True
  show ?thesis
  proof (cases "length history < 5")
    case short: True
    with True show ?thesis by (simp add: update_history_other)
  next
    case False
    then obtain x xs where "history = x # xs" by (cases history) auto
    with True False show ?thesis by (simp add: update_history_other)
  qed
next
  case False
  then show ?thesis by (simp add: update_history_same)
qed

lemma update_history_twice: "update_history (update_history history mid) mid = update_history history mid"
  using update_history_last [of history mid] by (simp add: update_history_same)

lemma update_history_length: 
  "length (update_history history mid) =
     (if (history = [] \<or> last history \<noteq> mid) \<and> length history < 5 then length history + 1 else length history)"
  by (auto simp add: update_history_def Let_def)

lemma foldl_update_history_length: "length h \<le> 5 \<Longrightarrow> length (foldl update_history h mids) \<le> 5"
  by (induction mids arbitrary: h) (simp_all add: update_history_length)

text \<open>
  C8, as the code has it. Recording the identifier that is already the last entry
  leaves the history unchanged, so recording the same identifier twice in a row has
  the effect of recording it once. The length then grows by 1, not 2, when the
  history has fewer than five entries and does not already end with the identifier;
  when it already ends with the identifier, or has five entries or more, the length
  does not grow at all. Recording any other identifier, or recording into the empty
  history, appends it, and the entry at the front is dropped if the length has
  passed five.
\<close>

theorem update_history_dedup:
  "(h1 \<noteq> [] \<and> last h1 = m1 \<longrightarrow> update_history h1 m1 = h1)
   \<and> update_history (update_history h m) m = update_history h m
   \<and> ((h2 = [] \<or> last h2 \<noteq> m2) \<and> length h2 < 5 \<longrightarrow>
        length (update_history (update_history h2 m2) m2) = length h2 + 1)
   \<and> ((h1 \<noteq> [] \<and> last h1 = m1) \<or> 5 \<le> length h1 \<longrightarrow>
        length (update_history (update_history h1 m1) m1) = length h1)
   \<and> (h2 = [] \<or> last h2 \<noteq> m2 \<longrightarrow>
        update_history h2 m2 = (if length h2 < 5 then h2 @ [m2] else tl (h2 @ [m2])))"
  by (auto simp add: update_history_twice update_history_length update_history_same update_history_other)

theorem update_history_dedup_witness:
  "update_history [7, 8] 8 = [7, 8]
   \<and> update_history (update_history [7, 8] 9) 9 = update_history [7, 8] 9
   \<and> length (update_history (update_history [7, 8] 9) 9) = length [7, 8 :: int] + 1
   \<and> length (update_history (update_history [7, 8] 8) 8) = length [7, 8 :: int]
   \<and> update_history [7, 8] 9 = [7, 8, 9]"
  using update_history_dedup [of "[7, 8]" 8 "[7, 8]" 9 "[7, 8]" 9] by auto

text \<open>
  The claim of C8 as it is written, for every history state, fails at a full history:
  recording the new identifier 6 twice into \<open>[1, 2, 3, 4, 5]\<close> gives
  \<open>[2, 3, 4, 5, 6]\<close>, whose length has not grown by 1.
\<close>

theorem update_history_growth_counterexample:
  "length (update_history (update_history [1, 2, 3, 4, 5] 6) 6) \<noteq> length [1, 2, 3, 4, 5 :: int] + 1"
  by (simp add: update_history_def)

text \<open>
  C9. Every history reached from the empty one by recording identifiers has at most
  five entries; recording a new identifier into a history of five entries drops the
  oldest entry, the one at the front, and puts the new one at the end; recording
  six distinct identifiers from the empty history leaves the last five, in order.
\<close>

theorem history_bounded:
  "length (foldl update_history [] mids) \<le> 5
   \<and> (length h = 5 \<and> last h \<noteq> m \<longrightarrow> update_history h m = tl h @ [m])
   \<and> (distinct [a, b, c, d, e, f] \<longrightarrow>
        foldl update_history [] [a, b, c, d, e, f] = [b, c, d, e, f])"
proof (intro conjI impI)
  show "length (foldl update_history [] mids) \<le> 5"
    by (simp add: foldl_update_history_length)
next
  assume "length h = 5 \<and> last h \<noteq> m"
  moreover from this have "h \<noteq> []" by auto
  ultimately show "update_history h m = tl h @ [m]"
    by (simp add: update_history_other)
next
  assume "distinct [a, b, c, d, e, f]"
  then show "foldl update_history [] [a, b, c, d, e, f] = [b, c, d, e, f]"
    by (simp add: update_history_def)
qed

theorem history_bounded_witness:
  "length (foldl update_history [] [1, 1, 2, 3, 4, 5, 6, 7]) \<le> 5
   \<and> update_history [1, 2, 3, 4, 5] 6 = [2, 3, 4, 5, 6]
   \<and> foldl update_history [] [1, 2, 3, 4, 5, 6] = [2, 3, 4, 5, 6]"
  using history_bounded [of "[1, 1, 2, 3, 4, 5, 6, 7]" "[1, 2, 3, 4, 5]" 6 1 2 3 4 5 6] by simp

section \<open>Ranking\<close>

text \<open>
  The stable ascending sort, run on a list that is ordered by a relation \<open>Q\<close> read
  backwards, orders its result by key and, among equal keys, by \<open>Q\<close> read backwards.
  Reversing gives the order of \<^verbatim>\<open>sorted(..., reverse=True)\<close>: descending keys, and among
  equal keys the order of the input.
\<close>

lemma sorted_wrt_insort_key_stable:
  assumes "sorted_wrt (\<lambda>a b. f a < f b \<or> (f a = f b \<and> Q a b)) ys"
    and "\<forall>y\<in>set ys. Q x y"
  shows "sorted_wrt (\<lambda>a b. f a < f b \<or> (f a = f b \<and> Q a b)) (insort_key f x ys)"
  using assms
proof (induction ys)
  case Nil
  then show ?case by simp
next
  case (Cons y ys)
  show ?case
  proof (cases "f x \<le> f y")
    case True
    have "f x < f z \<or> (f x = f z \<and> Q x z)" if "z \<in> set (y # ys)" for z
    proof -
      have "f y \<le> f z" using that Cons.prems(1) by auto
      with True have "f x \<le> f z" by simp
      moreover have "Q x z" using that Cons.prems(2) by blast
      ultimately show ?thesis by auto
    qed
    with True Cons.prems(1) show ?thesis by simp
  next
    case False
    with Cons show ?thesis by (auto simp add: set_insort_key)
  qed
qed

lemma sorted_wrt_sort_key_stable:
  "sorted_wrt Q xs \<Longrightarrow> sorted_wrt (\<lambda>a b. f a < f b \<or> (f a = f b \<and> Q a b)) (sort_key f xs)"
proof (induction xs)
  case Nil
  then show ?case by simp
next
  case (Cons x xs)
  then show ?case by (simp add: sorted_wrt_insort_key_stable)
qed

lemma sorted_wrt_enumerate: "sorted_wrt (\<lambda>a b. fst a < fst b) (enumerate n xs)"
proof -
  have "sorted_wrt (<) (map fst (enumerate n xs))" by simp
  then show ?thesis by (simp only: sorted_wrt_map)
qed

lemma sorted_reverse_ranked:
  assumes "sorted_wrt Q xs"
  shows "sorted_wrt (\<lambda>a b. k b < k a \<or> (k a = k b \<and> Q a b)) (sorted_reverse k xs)"
proof -
  have "sorted_wrt (\<lambda>a b. Q b a) (rev xs)" using assms by (simp add: sorted_wrt_rev)
  then have "sorted_wrt (\<lambda>a b. k a < k b \<or> (k a = k b \<and> Q b a)) (sort_key k (rev xs))"
    by (rule sorted_wrt_sort_key_stable)
  then show ?thesis
    unfolding sorted_reverse_def sorted_wrt_rev by (rule sorted_wrt_mono_rel [rotated]) auto
qed

lemma distances_ranked:
  "sorted_wrt (\<lambda>a b. snd b < snd a \<or> (snd a = snd b \<and> fst a < fst b)) (distances row)"
  unfolding distances_def by (rule sorted_reverse_ranked) (rule sorted_wrt_enumerate)

lemma set_distances: "set (distances row) = set (enumerate 0 row)"
  by (simp add: distances_def sorted_reverse_def)

lemma mset_distances: "mset (distances row) = mset (enumerate 0 row)"
  by (simp add: distances_def sorted_reverse_def)

lemma length_distances: "length (distances row) = length row"
  by (simp add: distances_def sorted_reverse_def)

lemma in_distances: "c \<in> set (distances row) \<longleftrightarrow> fst c < length row \<and> snd c = row ! fst c"
  by (auto simp add: set_distances in_set_enumerate_eq)

lemma distinct_distances: "distinct (map fst (distances row))"
proof -
  have "mset (map fst (distances row)) = mset (map fst (enumerate 0 row))"
    by (simp only: mset_map mset_distances)
  then have "distinct (map fst (distances row)) = distinct (map fst (enumerate 0 row))"
    by (rule mset_eq_imp_distinct_iff)
  then show ?thesis by simp
qed

lemma distances_head:
  assumes "i < length row"
    and "\<forall>j<length row. (j < i \<longrightarrow> row ! j < row ! i) \<and> (i < j \<longrightarrow> row ! j \<le> row ! i)"
  shows "\<exists>rest. distances row = (i, row ! i) # rest \<and> i \<notin> fst ` set rest"
proof -
  have "distances row \<noteq> []" using assms(1) length_distances [of row] by auto
  then obtain c rest where ds: "distances row = c # rest" by (cases "distances row") auto
  have c: "fst c < length row" "snd c = row ! fst c"
    using in_distances [of c row] by (simp_all add: ds)
  have "fst c = i"
  proof (rule ccontr)
    assume neq: "fst c \<noteq> i"
    have "(i, row ! i) \<in> set (distances row)" using assms(1) by (simp add: in_distances)
    with neq have "(i, row ! i) \<in> set rest" by (auto simp add: ds)
    with distances_ranked [of row]
    have ranked: "row ! i < snd c \<or> (snd c = row ! i \<and> fst c < i)" by (auto simp add: ds)
    from assms(2) c(1)
    have "(fst c < i \<longrightarrow> row ! fst c < row ! i) \<and> (i < fst c \<longrightarrow> row ! fst c \<le> row ! i)"
      by blast
    with ranked neq show False
      unfolding c(2) by (cases "fst c < i") auto
  qed
  with c have "c = (i, row ! i)" by (simp add: prod_eq_iff)
  moreover have "i \<notin> fst ` set rest"
    using distinct_distances [of row] \<open>c = (i, row ! i)\<close> by (simp add: ds)
  ultimately show ?thesis using ds by simp
qed

lemma ranked_first_head:
  assumes "i < length row" and "self_maximal row i" and "above_earlier row i"
  shows "\<exists>rest. distances row = (i, row ! i) # rest \<and> i \<notin> fst ` set rest"
proof (rule distances_head [OF assms(1)])
  show "\<forall>j<length row. (j < i \<longrightarrow> row ! j < row ! i) \<and> (i < j \<longrightarrow> row ! j \<le> row ! i)"
    using assms(2,3) by (simp add: self_maximal_def above_earlier_def list_all_iff)
qed

lemma selection_in_range:
  "c \<in> set (take k (drop d (distances row))) \<Longrightarrow> fst c < length row \<and> snd c = row ! fst c"
  using in_distances [of c row] by (meson in_set_dropD in_set_takeD)

lemma selection_length:
  "length (take 5 (drop 1 (distances row))) = min 5 (length row - 1)"
  by (simp add: length_distances min.commute)

section \<open>Title lookup and the loop of recommend\<close>




lemma first_match_title_index:
  assumes "first_match movies q p"
  shows "title_index movies q = Inr (label (movies ! p))"
proof -
  from assms have p: "p < length movies" and at: "title (movies ! p) = q"
    and before: "\<forall>j<p. title (movies ! j) \<noteq> q"
    by (simp_all add: first_match_def list_all_iff)
  have "title u \<noteq> q" if "u \<in> set (take p movies)" for u
  proof -
    from that obtain j where "j < p" "j < length movies" "u = movies ! j"
      by (auto simp add: in_set_conv_nth)
    with before show ?thesis by simp
  qed
  then have none: "filter (\<lambda>m. title m = q) (take p movies) = []"
    by (simp add: filter_empty_conv)
  have "movies = take p movies @ movies ! p # drop (Suc p) movies"
    using p by (rule id_take_nth_drop)
  then have "filter (\<lambda>m. title m = q) movies =
             filter (\<lambda>m. title m = q) (take p movies @ movies ! p # drop (Suc p) movies)"
    by simp
  also have "\<dots> = movies ! p # filter (\<lambda>m. title m = q) (drop (Suc p) movies)"
    by (simp add: none at)
  finally show ?thesis by (simp add: title_index_def)
qed


lemma only_match_first: "only_match movies q p \<Longrightarrow> first_match movies q p"
  by (auto simp add: only_match_def first_match_def list_all_iff)

lemma only_match_other:
  "only_match movies q p \<Longrightarrow> j < length movies \<Longrightarrow> j \<noteq> p \<Longrightarrow> title (movies ! j) \<noteq> q"
  by (auto simp add: only_match_def list_all_iff)

lemma getitem_position: "p < length xs \<Longrightarrow> getitem xs (int p) = Inr (xs ! p)"
  by (simp add: getitem_def)

lemma getitem_member: "getitem xs l = Inr row \<Longrightarrow> row \<in> set xs"
  by (auto simp add: getitem_def Let_def split: if_splits)

lemma getitem_in_range:
  "- int (length xs) \<le> l \<Longrightarrow> l < int (length xs) \<Longrightarrow> \<exists>row. getitem xs l = Inr row"
  by (auto simp add: getitem_def Let_def)

lemma aligned_row:
  "aligned movies similarity \<Longrightarrow> getitem similarity l = Inr row \<Longrightarrow> length row = length movies"
  using getitem_member [of similarity l row] by (simp add: aligned_def list_all_iff)

lemma aligned_position:
  "aligned movies similarity \<Longrightarrow> p < length movies \<Longrightarrow>
   getitem similarity (int p) = Inr (similarity ! p)"
  by (simp add: aligned_def getitem_position)

lemma rec_loop_titles:
  "map_sum id (map rec_title) (rec_loop net1 movies n1 sel) =
   map_sum id (map rec_title) (rec_loop net2 movies n2 sel)"
proof (induction sel arbitrary: n1 n2)
  case Nil
  show ?case by simp
next
  case (Cons c sel)
  from Cons [of "n1 + 2" "n2 + 2"] show ?case
    by (cases "rec_loop net1 movies (n1 + 2) sel"; cases "rec_loop net2 movies (n2 + 2) sel")
       (auto simp add: Let_def split: sum.splits)
qed

lemma rec_loop_in_range:
  assumes "\<forall>c\<in>set sel. fst c < length movies"
  shows "\<exists>rs. rec_loop net movies n sel = Inr rs \<and> length rs = length sel
           \<and> map rec_title rs = map (\<lambda>c. title (movies ! fst c)) sel"
  using assms
proof (induction sel arbitrary: n)
  case Nil
  show ?case by simp
next
  case (Cons c sel)
  from Cons.prems have "\<forall>c\<in>set sel. fst c < length movies" by simp
  from Cons.IH [OF this, of "n + 2"] obtain rs where "rec_loop net movies (n + 2) sel = Inr rs"
    "length rs = length sel" "map rec_title rs = map (\<lambda>c. title (movies ! fst c)) sel" by blast
  with Cons.prems show ?case by (simp add: iloc_def Let_def)
qed

lemma fetch_poster_failed:
  "(\<forall>body. details net n mid \<noteq> Response 200 body) \<Longrightarrow> fetch_poster net n mid = None"
  by (auto simp add: fetch_poster_def split: outcome.splits option.splits)

lemma fetch_trailer_failed:
  "(\<forall>body. videos net n mid \<noteq> Response 200 body) \<Longrightarrow> fetch_trailer net n mid = None"
  by (auto simp add: fetch_trailer_def split: outcome.splits option.splits)

lemma rec_loop_failed:
  assumes "\<forall>c\<in>set sel. fst c < length movies"
    and "\<forall>n mid body. details net n mid \<noteq> Response 200 body"
    and "\<forall>n mid body. videos net n mid \<noteq> Response 200 body"
  shows "rec_loop net movies n sel =
         Inr (map (\<lambda>c. \<lparr>rec_title = title (movies ! fst c), poster = None, trailer = None\<rparr>) sel)"
  using assms(1)
proof (induction sel arbitrary: n)
  case Nil
  show ?case by simp
next
  case (Cons c sel)
  from Cons.prems have "\<forall>c\<in>set sel. fst c < length movies" by simp
  from Cons.IH [OF this, of "n + 2"] Cons.prems assms(2,3) show ?case
    by (simp add: iloc_def Let_def fetch_poster_failed fetch_trailer_failed)
qed

lemma rec_loop_degraded:
  assumes "\<forall>n mid body. details net n mid \<noteq> Response 200 body"
    and "\<forall>n mid body. videos net n mid \<noteq> Response 200 body"
  shows "rec_loop net movies n sel =
         map_sum id (map (\<lambda>r. r\<lparr>poster := None, trailer := None\<rparr>)) (rec_loop net2 movies n2 sel)"
proof (induction sel arbitrary: n n2)
  case Nil
  show ?case by simp
next
  case (Cons c sel)
  from Cons [of "n + 2" "n2 + 2"] assms show ?case
    by (cases "rec_loop net2 movies (n2 + 2) sel")
       (auto simp add: Let_def fetch_poster_failed fetch_trailer_failed split: sum.splits)
qed

lemma recommend_unfold:
  assumes "title_index movies q = Inr l" and "getitem similarity l = Inr row"
  shows "recommend net movies similarity q = rec_loop net movies 0 (take 5 (drop 1 (distances row)))"
  using assms by (simp add: recommend_def)

lemma recommend_selection:
  assumes "aligned movies similarity" and "title_index movies q = Inr l"
    and "getitem similarity l = Inr row"
  shows "\<exists>rs. recommend net movies similarity q = Inr rs
           \<and> length rs = min 5 (length movies - 1)
           \<and> map rec_title rs = map (\<lambda>c. title (movies ! fst c)) (take 5 (drop 1 (distances row)))"
proof -
  from assms(1,3) have len: "length row = length movies" by (rule aligned_row)
  have "\<forall>c\<in>set (take 5 (drop 1 (distances row))). fst c < length movies"
    using selection_in_range [of _ 5 1 row] by (simp add: len)
  from rec_loop_in_range [OF this, of net 0]
  obtain rs where "rec_loop net movies 0 (take 5 (drop 1 (distances row))) = Inr rs"
    "length rs = length (take 5 (drop 1 (distances row)))"
    "map rec_title rs = map (\<lambda>c. title (movies ! fst c)) (take 5 (drop 1 (distances row)))"
    by blast
  then show ?thesis
    by (simp only: recommend_unfold [OF assms(2,3)] selection_length len) simp
qed

lemmas eval_defs = recommend_def title_index_def getitem_def iloc_def distances_def
  sorted_reverse_def enumerate_eq_zip upt_rec Let_def abc_movies_def abc_similarity_def
  gap_movies_def gap_similarity_def aligned_def first_match_def only_match_def
  self_maximal_def above_earlier_def offline_def online_def fetch_poster_def fetch_trailer_def

section \<open>Recommendation\<close>

text \<open>
  C1, as the code has it. The code never compares a candidate with the query: it
  drops the entry ranked first. For a matrix whose dimension is the catalog size and a
  query title that occurs exactly once in the catalog, in a row whose index label is
  its position, if the query's own score is maximal in its row and strictly above the
  score of every earlier row, then \<^verbatim>\<open>recommend\<close> returns and its output does not
  contain the query title. Nothing is said here about a row whose label is not its
  position.
\<close>

theorem recommend_excludes_query:
  assumes "aligned movies similarity" and "only_match movies q p"
    and "label (movies ! p) = int p"
    and "self_maximal (similarity ! p) p" and "above_earlier (similarity ! p) p"
  shows "\<exists>rs. recommend net movies similarity q = Inr rs \<and> q \<notin> set (map rec_title rs)"
proof -
  from assms(2) have p: "p < length movies" by (simp add: only_match_def)
  from assms(2,3) have ti: "title_index movies q = Inr (int p)"
    using first_match_title_index [OF only_match_first] by fastforce
  from assms(1) p have row: "getitem similarity (int p) = Inr (similarity ! p)"
    by (rule aligned_position)
  with assms(1) have len: "length (similarity ! p) = length movies" by (rule aligned_row)
  with p have "p < length (similarity ! p)" by simp
  from ranked_first_head [OF this assms(4,5)]
  obtain rest where ds: "distances (similarity ! p) = (p, similarity ! p ! p) # rest"
    and notin: "p \<notin> fst ` set rest" by blast
  have unfold: "recommend net movies similarity q = rec_loop net movies 0 (take 5 rest)"
    by (simp add: recommend_unfold [OF ti row] ds)
  have range: "fst c < length movies \<and> fst c \<noteq> p" if "c \<in> set (take 5 rest)" for c
  proof -
    from that have "c \<in> set rest" by (rule in_set_takeD)
    then have "c \<in> set (distances (similarity ! p))" by (simp add: ds)
    then have "fst c < length movies" by (simp add: in_distances len)
    moreover from \<open>c \<in> set rest\<close> notin have "fst c \<noteq> p" by auto
    ultimately show ?thesis by simp
  qed
  then have "\<forall>c\<in>set (take 5 rest). fst c < length movies" by blast
  from rec_loop_in_range [OF this, of net 0]
  obtain rs where rs: "rec_loop net movies 0 (take 5 rest) = Inr rs"
    "map rec_title rs = map (\<lambda>c. title (movies ! fst c)) (take 5 rest)" by blast
  have "title (movies ! fst c) \<noteq> q" if "c \<in> set (take 5 rest)" for c
    using range [OF that] only_match_other [OF assms(2)] by blast
  then have "q \<notin> set (map rec_title rs)" by (auto simp add: rs(2))
  with unfold rs(1) show ?thesis by simp
qed

theorem recommend_excludes_query_witness:
  "aligned abc_movies abc_similarity \<and> only_match abc_movies ''B'' 1
   \<and> label (abc_movies ! 1) = int 1
   \<and> self_maximal (abc_similarity ! 1) 1 \<and> above_earlier (abc_similarity ! 1) 1
   \<and> (\<exists>rs. recommend online abc_movies abc_similarity ''B'' = Inr rs
          \<and> ''B'' \<notin> set (map rec_title rs))"
proof -
  have h: "aligned abc_movies abc_similarity" "only_match abc_movies ''B'' 1"
    "label (abc_movies ! 1) = int 1"
    "self_maximal (abc_similarity ! 1) 1" "above_earlier (abc_similarity ! 1) 1"
    by (simp_all add: eval_defs)
  from recommend_excludes_query [OF h, of online] h show ?thesis by blast
qed

text \<open>
  The claim of C1 as it is written fails in three ways, each on a matrix of the right
  dimension that is symmetric and has maximal self-similarity. A tie: two movies
  \<open>A\<close>, \<open>B\<close> with all four scores 1; for the query \<open>B\<close> the stable sort ranks row 0
  first, the slice drops it, and the output is \<open>B\<close>. A repeated title: in the catalog
  \<open>A\<close>, \<open>B\<close>, \<open>A\<close> the query \<open>A\<close> is answered with the other \<open>A\<close>. A label that
  is not a position: in the frame with the labels 0, 2, 3 the query \<open>B\<close> at position 1
  makes the code rank the row 2 of the matrix, whose first entry is \<open>C\<close>, and the
  output contains \<open>B\<close>.
\<close>

theorem recommend_self_counterexample:
  "map_sum id (map rec_title)
     (recommend offline
        [\<lparr>label = 0, movie_id = 1, title = ''A''\<rparr>, \<lparr>label = 1, movie_id = 2, title = ''B''\<rparr>]
        [[1, 1], [1, 1 :: real]] ''B'') = Inr [''B'']
   \<and> map_sum id (map rec_title)
        (recommend offline
           [\<lparr>label = 0, movie_id = 1, title = ''A''\<rparr>, \<lparr>label = 1, movie_id = 2, title = ''B''\<rparr>,
            \<lparr>label = 2, movie_id = 3, title = ''A''\<rparr>]
           [[1, 1/2, 9/10], [1/2, 1, 1/2], [9/10, 1/2, 1 :: real]] ''A'') = Inr [''A'', ''B'']
   \<and> map_sum id (map rec_title) (recommend offline gap_movies gap_similarity ''B'')
        = Inr [''A'', ''B'']"
  by (simp add: eval_defs)

text \<open>
  C2, as the code has it. For a query title whose first match is at row \<open>p\<close> of the
  catalog, with index label \<open>p\<close>, and a matrix whose dimension is the catalog size: if
  the query's own score is maximal in its row and strictly above the score of every
  earlier row, then the first entry of the row sorted by descending score is the
  query's own entry; the entries after it are exactly the other entries of the row,
  none of them the query's, and \<^verbatim>\<open>recommend\<close> takes the first five of those. Nothing is
  said here about a row whose label is not its position.
\<close>

theorem self_match_first:
  assumes "aligned movies similarity" and "first_match movies q p"
    and "label (movies ! p) = int p"
    and "self_maximal (similarity ! p) p" and "above_earlier (similarity ! p) p"
  shows "\<exists>rest. distances (similarity ! p) = (p, similarity ! p ! p) # rest
           \<and> p \<notin> fst ` set rest
           \<and> mset rest = mset (enumerate 0 (similarity ! p)) - {#(p, similarity ! p ! p)#}
           \<and> recommend net movies similarity q = rec_loop net movies 0 (take 5 rest)"
proof -
  from assms(2) have p: "p < length movies" by (simp add: first_match_def)
  from assms(2,3) have ti: "title_index movies q = Inr (int p)"
    using first_match_title_index by fastforce
  from assms(1) p have row: "getitem similarity (int p) = Inr (similarity ! p)"
    by (rule aligned_position)
  with assms(1) have "length (similarity ! p) = length movies" by (rule aligned_row)
  with p have "p < length (similarity ! p)" by simp
  from ranked_first_head [OF this assms(4,5)]
  obtain rest where ds: "distances (similarity ! p) = (p, similarity ! p ! p) # rest"
    and notin: "p \<notin> fst ` set rest" by blast
  have "mset (distances (similarity ! p)) = mset (enumerate 0 (similarity ! p))"
    by (rule mset_distances)
  then have "mset rest = mset (enumerate 0 (similarity ! p)) - {#(p, similarity ! p ! p)#}"
    by (simp add: ds flip: mset_distances)
  moreover have "recommend net movies similarity q = rec_loop net movies 0 (take 5 rest)"
    by (simp add: recommend_unfold [OF ti row] ds)
  ultimately show ?thesis using ds notin by blast
qed

theorem self_match_first_witness:
  "aligned abc_movies abc_similarity \<and> first_match abc_movies ''B'' 1
   \<and> label (abc_movies ! 1) = int 1
   \<and> self_maximal (abc_similarity ! 1) 1 \<and> above_earlier (abc_similarity ! 1) 1
   \<and> (\<exists>rest. distances (abc_similarity ! 1) = (1, abc_similarity ! 1 ! 1) # rest
          \<and> 1 \<notin> fst ` set rest
          \<and> mset rest = mset (enumerate 0 (abc_similarity ! 1)) - {#(1, abc_similarity ! 1 ! 1)#}
          \<and> recommend offline abc_movies abc_similarity ''B'' =
              rec_loop offline abc_movies 0 (take 5 rest))"
proof -
  have h: "aligned abc_movies abc_similarity" "first_match abc_movies ''B'' 1"
    "label (abc_movies ! 1) = int 1"
    "self_maximal (abc_similarity ! 1) 1" "above_earlier (abc_similarity ! 1) 1"
    by (simp_all add: eval_defs)
  from self_match_first [OF h, of offline] h show ?thesis by blast
qed

text \<open>
  The claim of C2 as it is written fails in two ways. With a self-similarity that is
  only maximal, an earlier row may tie with it: in the row \<open>[1/2, 1, 1]\<close> of the query
  \<open>C\<close> at row 2 the own score 1 is maximal, but the sorted row starts with row 1, and
  dropping the first entry leaves the query in the output. With a label that is not a
  position, the row that is sorted is not the query's: in the frame with the labels
  0, 2, 3 the query \<open>B\<close> at position 1 has a strictly maximal own score in row 1, the
  lookup returns 2, the first entry of the sorted row 2 is \<open>C\<close>, and the query stays
  in the output.
\<close>

theorem self_not_first_counterexample:
  "first_match abc_movies ''C'' 2
   \<and> self_maximal [1/2, 1, 1 :: real] 2
   \<and> distances [1/2, 1, 1 :: real] = [(1, 1), (2, 1), (0, 1/2)]
   \<and> map_sum id (map rec_title)
        (recommend offline abc_movies [[1, 1/2, 1/2], [1/2, 1, 1], [1/2, 1, 1 :: real]] ''C'')
      = Inr [''C'', ''A'']
   \<and> first_match gap_movies ''B'' 1
   \<and> self_maximal (gap_similarity ! 1) 1 \<and> above_earlier (gap_similarity ! 1) 1
   \<and> title_index gap_movies ''B'' = Inr 2
   \<and> distances (gap_similarity ! 2) = [(2, 1), (0, 1/2), (1, 1/5)]
   \<and> map_sum id (map rec_title) (recommend offline gap_movies gap_similarity ''B'')
      = Inr [''A'', ''B'']"
  by (simp add: eval_defs)

text \<open>
  C3, as the code has it. \<^verbatim>\<open>recommend\<close> takes no parameter \<open>K\<close>: the slice
  \<^verbatim>\<open>distances[1:6]\<close> fixes the number at five. For a matrix whose dimension is the catalog
  size and a query title of the catalog whose first match has an index label that is
  a subscript of the matrix (from \<open>-n\<close> up to \<open>n - 1\<close> for a catalog of \<open>n\<close> rows,
  as every label of a default index is), \<^verbatim>\<open>recommend\<close> returns exactly
  \<open>min 5 (n - 1)\<close> entries. Nothing is said here about a label outside that range.
\<close>

theorem recommend_length:
  assumes "aligned movies similarity" and "first_match movies q p"
    and "- int (length movies) \<le> label (movies ! p)" and "label (movies ! p) < int (length movies)"
  shows "\<exists>rs. recommend net movies similarity q = Inr rs \<and> length rs = min 5 (length movies - 1)"
proof -
  from assms(2) have ti: "title_index movies q = Inr (label (movies ! p))"
    by (rule first_match_title_index)
  from assms(1,3,4) obtain row where "getitem similarity (label (movies ! p)) = Inr row"
    using getitem_in_range [of similarity "label (movies ! p)"] by (auto simp add: aligned_def)
  from recommend_selection [OF assms(1) ti this, of net] show ?thesis by blast
qed

theorem recommend_length_witness:
  "aligned abc_movies abc_similarity \<and> first_match abc_movies ''A'' 0
   \<and> - int (length abc_movies) \<le> label (abc_movies ! 0)
   \<and> label (abc_movies ! 0) < int (length abc_movies)
   \<and> (\<exists>rs. recommend online abc_movies abc_similarity ''A'' = Inr rs
          \<and> length rs = min 5 (length abc_movies - 1))"
proof -
  have h: "aligned abc_movies abc_similarity" "first_match abc_movies ''A'' 0"
    "- int (length abc_movies) \<le> label (abc_movies ! 0)"
    "label (abc_movies ! 0) < int (length abc_movies)"
    by (simp_all add: eval_defs)
  from recommend_length [OF h, of online] h show ?thesis by blast
qed

text \<open>
  The claim of C3 as it is written, for every positive \<open>K\<close>, fails at \<open>K = 1\<close>: on
  the catalog of three movies \<^verbatim>\<open>recommend\<close> returns two entries, not \<open>min 1 (3 - 1)\<close>.
  It also fails for a title of the catalog whose label is no subscript of the matrix:
  in the frame with the labels 0, 2, 3 the query \<open>C\<close> makes line 142 raise.
\<close>

theorem recommend_length_counterexample:
  "aligned abc_movies abc_similarity \<and> ''A'' \<in> set (map title abc_movies)
   \<and> map_sum id length (recommend offline abc_movies abc_similarity ''A'')
       \<noteq> Inr (min 1 (length abc_movies - 1))
   \<and> aligned gap_movies gap_similarity \<and> ''C'' \<in> set (map title gap_movies)
   \<and> recommend offline gap_movies gap_similarity ''C'' = Inl IndexError"
  by (simp add: eval_defs)





text \<open>
  C6. The titles of the output of \<^verbatim>\<open>recommend\<close>, and their order, are the same for any
  two behaviours of the metadata service (and so is an escaping error), whatever the
  catalog, the matrix and the query. When no request of a run ends with status 200
  (every attempt fails or answers 500), the output is that of any other run with
  every poster and trailer replaced by \<^verbatim>\<open>None\<close>; and for a query title of the catalog
  and a matrix whose dimension is the catalog size it is the full list of ranked
  titles of the row the code sorts, each with poster \<^verbatim>\<open>None\<close> and trailer \<^verbatim>\<open>None\<close>.
\<close>

theorem recommend_titles_independent:
  "map_sum id (map rec_title) (recommend neta movies similarity q) =
   map_sum id (map rec_title) (recommend netb movies similarity q)
   \<and> ((\<forall>n mid body. details net n mid \<noteq> Response 200 body)
        \<and> (\<forall>n mid body. videos net n mid \<noteq> Response 200 body) \<longrightarrow>
      recommend net movies similarity q =
        map_sum id (map (\<lambda>r. r\<lparr>poster := None, trailer := None\<rparr>)) (recommend netb movies similarity q))
   \<and> (aligned movies similarity \<and> first_match movies q p
        \<and> getitem similarity (label (movies ! p)) = Inr row
        \<and> (\<forall>n mid body. details net n mid \<noteq> Response 200 body)
        \<and> (\<forall>n mid body. videos net n mid \<noteq> Response 200 body) \<longrightarrow>
      recommend net movies similarity q =
        Inr (map (\<lambda>c. \<lparr>rec_title = title (movies ! fst c), poster = None, trailer = None\<rparr>)
               (take 5 (drop 1 (distances row)))))"
proof (intro conjI impI)
  show "map_sum id (map rec_title) (recommend neta movies similarity q) =
        map_sum id (map rec_title) (recommend netb movies similarity q)"
    by (simp add: recommend_def rec_loop_titles [of neta movies 0 _ netb 0] split: sum.splits)
next
  assume "(\<forall>n mid body. details net n mid \<noteq> Response 200 body)
        \<and> (\<forall>n mid body. videos net n mid \<noteq> Response 200 body)"
  then have d: "\<forall>n mid body. details net n mid \<noteq> Response 200 body"
    and v: "\<forall>n mid body. videos net n mid \<noteq> Response 200 body" by simp_all
  show "recommend net movies similarity q =
        map_sum id (map (\<lambda>r. r\<lparr>poster := None, trailer := None\<rparr>)) (recommend netb movies similarity q)"
    by (simp add: recommend_def rec_loop_degraded [OF d v, of movies 0 _ netb 0] split: sum.splits)
next
  assume h: "aligned movies similarity \<and> first_match movies q p
        \<and> getitem similarity (label (movies ! p)) = Inr row
        \<and> (\<forall>n mid body. details net n mid \<noteq> Response 200 body)
        \<and> (\<forall>n mid body. videos net n mid \<noteq> Response 200 body)"
  then have ti: "title_index movies q = Inr (label (movies ! p))"
    by (simp add: first_match_title_index)
  from h have row: "getitem similarity (label (movies ! p)) = Inr row" by simp
  from h have "aligned movies similarity" by simp
  from this row have len: "length row = length movies" by (rule aligned_row)
  have "\<forall>c\<in>set (take 5 (drop 1 (distances row))). fst c < length movies"
    using selection_in_range [of _ 5 1 row] by (simp add: len)
  from rec_loop_failed [OF this, of net 0] h
  show "recommend net movies similarity q =
        Inr (map (\<lambda>c. \<lparr>rec_title = title (movies ! fst c), poster = None, trailer = None\<rparr>)
               (take 5 (drop 1 (distances row))))"
    by (simp add: recommend_unfold [OF ti row])
qed

theorem recommend_titles_independent_witness:
  "aligned abc_movies abc_similarity \<and> first_match abc_movies ''A'' 0
   \<and> getitem abc_similarity (label (abc_movies ! 0)) = Inr [1, 9/10, 9/10]
   \<and> (\<forall>n mid body. details offline n mid \<noteq> Response 200 body)
   \<and> (\<forall>n mid body. videos offline n mid \<noteq> Response 200 body)
   \<and> map_sum id (map rec_title) (recommend offline abc_movies abc_similarity ''A'') =
       map_sum id (map rec_title) (recommend online abc_movies abc_similarity ''A'')
   \<and> recommend offline abc_movies abc_similarity ''A'' =
       map_sum id (map (\<lambda>r. r\<lparr>poster := None, trailer := None\<rparr>))
         (recommend online abc_movies abc_similarity ''A'')
   \<and> recommend offline abc_movies abc_similarity ''A'' =
       Inr [\<lparr>rec_title = ''B'', poster = None, trailer = None\<rparr>,
            \<lparr>rec_title = ''C'', poster = None, trailer = None\<rparr>]"
proof -
  have h: "aligned abc_movies abc_similarity" "first_match abc_movies ''A'' 0"
    "getitem abc_similarity (label (abc_movies ! 0)) = Inr [1, 9/10, 9/10]"
    "\<forall>n mid body. details offline n mid \<noteq> Response 200 body"
    "\<forall>n mid body. videos offline n mid \<noteq> Response 200 body"
    by (simp_all add: eval_defs)
  have sel: "map (\<lambda>c. \<lparr>rec_title = title (abc_movies ! fst c), poster = None, trailer = None\<rparr>)
                 (take 5 (drop 1 (distances [1, 9/10, 9/10 :: real]))) =
             [\<lparr>rec_title = ''B'', poster = None, trailer = None\<rparr>,
              \<lparr>rec_title = ''C'', poster = None, trailer = None\<rparr>]"
    by (simp add: eval_defs)
  from recommend_titles_independent [where neta = offline and netb = online and net = offline
      and movies = abc_movies and similarity = abc_similarity and q = "''A''" and p = 0
      and row = "[1, 9/10, 9/10]"] h
  have same: "map_sum id (map rec_title) (recommend offline abc_movies abc_similarity ''A'') =
          map_sum id (map rec_title) (recommend online abc_movies abc_similarity ''A'')"
    and degraded: "recommend offline abc_movies abc_similarity ''A'' =
       map_sum id (map (\<lambda>r. r\<lparr>poster := None, trailer := None\<rparr>))
         (recommend online abc_movies abc_similarity ''A'')"
    and failed: "recommend offline abc_movies abc_similarity ''A'' =
          Inr (map (\<lambda>c. \<lparr>rec_title = title (abc_movies ! fst c), poster = None, trailer = None\<rparr>)
                 (take 5 (drop 1 (distances [1, 9/10, 9/10 :: real]))))"
    by blast+
  from same degraded failed [unfolded sel] h show ?thesis by blast
qed

text \<open>
  C7. On the catalog \<open>[(1, A), (2, B), (3, C)]\<close>, a frame with the default index, with
  the row \<open>[1.0, 0.9, 0.9]\<close> for \<open>A\<close>, whatever the other rows and the metadata
  service, \<^verbatim>\<open>recommend("A")\<close> returns the titles \<open>B\<close>, \<open>C\<close> in that order: the tie is
  broken by row order. The function has no parameter \<open>K\<close>; its fixed window of five
  gives the two entries the example expects for \<open>K = 2\<close>, since only two candidates
  remain.
\<close>

theorem recommend_example:
  "map_sum id (map rec_title)
     (recommend net [\<lparr>label = 0, movie_id = 1, title = ''A''\<rparr>, \<lparr>label = 1, movie_id = 2, title = ''B''\<rparr>,
                     \<lparr>label = 2, movie_id = 3, title = ''C''\<rparr>]
        ([1, 9/10, 9/10 :: real] # rest) ''A'')
   = Inr [''B'', ''C'']"
  by (simp add: recommend_def title_index_def getitem_def iloc_def distances_def sorted_reverse_def
        enumerate_eq_zip upt_rec Let_def)

end
